theory Spec2Isabelle
  imports Complex_Main
begin

section \<open>The VCT InSite 4.0 payload codec (vendor/vct/insite-4b-codec.js)\<close>

text \<open>
  The codec has two entry points, \<open>decodeUplink\<close> and \<open>encodeDownlink\<close>, and a set of
  helpers. JavaScript numbers that are integers are modelled as \<open>int\<close>, byte arrays as
  \<open>int list\<close>, strings as \<open>string\<close>. A \<open>throw\<close> is the left summand of the result.
\<close>

subsection \<open>Faults\<close>

text \<open>
  \<open>Error msg\<close> is \<open>throw new Error(msg)\<close>. \<open>RangeError\<close> is what \<open>DataView.setUint8\<close>
  raises for an offset outside the buffer.
\<close>

datatype fault = Error string | RangeError

definition bindE :: "fault + 'a \<Rightarrow> ('a \<Rightarrow> fault + 'b) \<Rightarrow> fault + 'b" where
  "bindE m f = (case m of Inl e \<Rightarrow> Inl e | Inr v \<Rightarrow> f v)"

subsection \<open>Downlink encoder\<close>

text \<open>
  The command object \<open>input.data\<close>, with the field types that the header comment of
  \<open>encodeDownlink\<close> documents: intervals in minutes, the time as a string, \<open>scan\<close> and
  \<open>alert_sound\<close> as booleans, \<open>alert_type\<close> as a number.
\<close>

record downlink_data =
  data_type :: string
  uplink_interval_vitals :: int
  uplink_interval_gps :: int
  time :: string
  scan :: bool
  alert_sound :: bool
  alert_type :: int

record downlink_input =
  data :: downlink_data

text \<open>The returned object has either the field \<open>bytes\<close> or the field \<open>errors\<close>.\<close>

datatype downlink_output = Bytes "int list" | Errors "string list"

text \<open>
  \<open>stringToBytes\<close> is called with string literals, with the string \<open>input.data.time\<close> and
  with the boolean \<open>input.data.scan\<close>. Its loop is \<open>for (i = 0; i < str.length; i++)\<close>.
  A string has a \<open>length\<close>. On a boolean the property \<open>length\<close> is \<open>undefined\<close> and
  \<open>0 < undefined\<close> is false: the loop body never runs and the empty array is returned.
  Isabelle characters are 8 bits wide; on ASCII text \<open>of_char\<close> is \<open>charCodeAt\<close>.
\<close>

datatype jsvalue = JSString string | JSBoolean bool

definition charCodeAt :: "string \<Rightarrow> nat \<Rightarrow> int" where
  "charCodeAt str i = int (of_char (str ! i))"

function stringToBytes_loop :: "string \<Rightarrow> nat \<Rightarrow> int list \<Rightarrow> int list" where
  "stringToBytes_loop str i byteArray =
     (if i < length str
      then stringToBytes_loop str (i + 1) (byteArray @ [charCodeAt str i])
      else byteArray)"
  by pat_completeness auto
termination
  by (relation "measure (\<lambda>(str, i, byteArray). length str - i)") auto

declare stringToBytes_loop.simps [simp del]

fun stringToBytes :: "jsvalue \<Rightarrow> int list" where
  "stringToBytes (JSString str) = stringToBytes_loop str 0 []"
| "stringToBytes (JSBoolean b) = []"

text \<open>An element of the array handed to \<open>flatten\<close>: an array or a single number.\<close>

datatype item = Arr "int list" | Num int

fun flatten :: "item list \<Rightarrow> int list" where
  "flatten [] = []"
| "flatten (Arr xs # items) = xs @ flatten items"
| "flatten (Num x # items) = x # flatten items"

text \<open>
  \<open>intervalMap\<close> as an association list; every value is a non-empty string, so
  \<open>if (intervalMap[interval])\<close> is the test that the key is present.
\<close>

definition intervalMap :: "(int \<times> string) list" where
  "intervalMap = [(1, ''7''), (5, ''1''), (10, ''2''), (15, ''3''), (30, ''4''), (60, ''5''), (120, ''6'')]"

definition getUplinkIntervalCode :: "int \<Rightarrow> fault + int" where
  "getUplinkIntervalCode interval =
     (case map_of intervalMap interval of
        Some code \<Rightarrow> Inr (charCodeAt code 0)
      | None \<Rightarrow> Inl (Error ''Invalid uplink interval.''))"

definition endChar :: "int list" where
  "endChar = [13, 10]"

definition encodeDownlink :: "downlink_input \<Rightarrow> fault + downlink_output" where
  "encodeDownlink input =
     (if data_type (data input) = ''UPLINK'' then
        bindE (getUplinkIntervalCode (uplink_interval_vitals (data input))) (\<lambda>vitals_code.
        bindE (getUplinkIntervalCode (uplink_interval_gps (data input))) (\<lambda>gps_code.
        Inr (Bytes (flatten [Arr (stringToBytes (JSString ''UPLINK:'')), Num vitals_code,
                             Arr (stringToBytes (JSString '','')), Num gps_code, Arr endChar]))))
      else if data_type (data input) = ''TIME'' then
        Inr (Bytes (flatten [Arr (stringToBytes (JSString ''TIME:'')),
                             Arr (stringToBytes (JSString (time (data input)))), Arr endChar]))
      else if data_type (data input) = ''SCAN'' then
        Inr (Bytes (flatten [Arr (stringToBytes (JSString ''SCAN:'')),
                             Arr (stringToBytes (JSBoolean (scan (data input)))), Arr endChar]))
      else if data_type (data input) = ''ALERT'' then
        Inr (Bytes (flatten [Arr (stringToBytes (JSString ''ALERT:'')),
                             Arr (stringToBytes (JSString (if alert_sound (data input) then ''1'' else ''2''))),
                             Arr (stringToBytes (JSString '','')),
                             Arr (stringToBytes (JSString ''0'')), Arr endChar]))
      else Inr (Errors [''Invalid data type'']))"

subsection \<open>The JavaScript runtime\<close>

text \<open>
  Double-precision arithmetic, the reading of a double from a buffer and the \<open>Date\<close> object
  belong to the runtime, not to the codec. They are parameters of the model: \<open>'f\<close> is the
  type of doubles and \<open>'d\<close> the type of dates. What is proved for every runtime holds for
  IEEE-754 arithmetic.
\<close>

record ('f, 'd) runtime =
  getFloat64LE :: "int list \<Rightarrow> 'f"  \<comment> \<open>\<open>DataView.getFloat64(0, true)\<close> on the 8 bytes of the buffer\<close>
  number :: "int \<Rightarrow> 'f"  \<comment> \<open>an integer as a double\<close>
  hundredth :: "'f"  \<comment> \<open>the literal \<open>0.01\<close>\<close>
  math_floor :: "'f \<Rightarrow> 'f"  \<comment> \<open>\<open>Math.floor\<close>\<close>
  f_add :: "'f \<Rightarrow> 'f \<Rightarrow> 'f"
  f_sub :: "'f \<Rightarrow> 'f \<Rightarrow> 'f"
  f_mul :: "'f \<Rightarrow> 'f \<Rightarrow> 'f"
  f_div :: "'f \<Rightarrow> 'f \<Rightarrow> 'f"
  f_neg :: "'f \<Rightarrow> 'f"
  newDate :: "'d"  \<comment> \<open>\<open>new Date()\<close>, the current time\<close>
  setHours :: "'d \<Rightarrow> int option \<Rightarrow> int option \<Rightarrow> int option \<Rightarrow> int \<Rightarrow> 'd"

subsection \<open>Binary primitives\<close>

text \<open>\<open>bytes[i]\<close>: \<open>undefined\<close> (\<open>None\<close>) past the end of the array.\<close>

definition js_index :: "'a list \<Rightarrow> nat \<Rightarrow> 'a option" where
  "js_index xs i = (if i < length xs then Some (xs ! i) else None)"

text \<open>\<open>bytes.slice(start, fin)\<close> with \<open>0 \<le> start\<close> and \<open>0 \<le> fin\<close>; both are clamped to the length.\<close>

definition slice :: "'a list \<Rightarrow> nat \<Rightarrow> nat \<Rightarrow> 'a list" where
  "slice xs start fin = take (fin - start) (drop start xs)"

text \<open>A store into a \<open>Uint8Array\<close> or through \<open>setUint8\<close> keeps the low 8 bits.\<close>

definition ToUint8 :: "int \<Rightarrow> int" where
  "ToUint8 x = x mod 256"

function toBigEndian_loop :: "int list \<Rightarrow> nat \<Rightarrow> int list \<Rightarrow> int list" where
  "toBigEndian_loop byteArray i reversedArray =
     (if i < length byteArray
      then toBigEndian_loop byteArray (i + 1)
             (reversedArray[i := ToUint8 (byteArray ! (length byteArray - 1 - i))])
      else reversedArray)"
  by pat_completeness auto
termination
  by (relation "measure (\<lambda>(byteArray, i, reversedArray). length byteArray - i)") auto

declare toBigEndian_loop.simps [simp del]

definition toBigEndian :: "int list \<Rightarrow> int list" where
  "toBigEndian byteArray = toBigEndian_loop byteArray 0 (replicate (length byteArray) 0)"

text \<open>
  \<open>byteArrayToInteger\<close>: \<open>view.set(byteArray)\<close> copies the bytes into a \<open>Uint8Array\<close>;
  the \<open>DataView\<close> getters read big-endian.
\<close>

definition getUint8 :: "int list \<Rightarrow> nat \<Rightarrow> int" where
  "getUint8 view off = view ! off"

definition getUint16BE :: "int list \<Rightarrow> nat \<Rightarrow> int" where
  "getUint16BE view off = view ! off * 256 + view ! (off + 1)"

definition getUint32BE :: "int list \<Rightarrow> nat \<Rightarrow> int" where
  "getUint32BE view off =
     view ! off * 16777216 + view ! (off + 1) * 65536 + view ! (off + 2) * 256 + view ! (off + 3)"

definition byteArrayToInteger :: "int list \<Rightarrow> fault + int" where
  "byteArrayToInteger byteArray =
     (if length byteArray = 0 then Inl (Error ''Byte array must have at least one element.'')
      else
        let view = map ToUint8 byteArray in
        if length byteArray = 1 then Inr (getUint8 view 0)
        else if length byteArray = 2 then Inr (getUint16BE view 0)
        else if length byteArray = 4 then Inr (getUint32BE view 0)
        else Inl (Error ''Byte array length must be 1, 2, or 4 bytes to convert to an integer.''))"

text \<open>
  \<open>byteArrayToDouble\<close>: the buffer has 8 bytes, all zero at first; \<open>forEach\<close> stores byte
  \<open>i\<close> at offset \<open>i\<close>, and \<open>setUint8\<close> raises \<open>RangeError\<close> at an offset past the buffer.
\<close>

fun setUint8_forEach :: "int list \<Rightarrow> nat \<Rightarrow> int list \<Rightarrow> fault + int list" where
  "setUint8_forEach [] i view = Inr view"
| "setUint8_forEach (byte # rest) i view =
     (if i < length view then setUint8_forEach rest (i + 1) (view[i := ToUint8 byte])
      else Inl RangeError)"

definition byteArrayToDouble :: "('f, 'd) runtime \<Rightarrow> int list \<Rightarrow> fault + 'f" where
  "byteArrayToDouble rt byteArray =
     (if length byteArray = 0 then Inl (Error ''Byte array must have at least one element.'')
      else bindE (setUint8_forEach byteArray 0 (replicate 8 0)) (\<lambda>view.
           Inr (getFloat64LE rt view)))"

fun getLorawanRegion :: "int option \<Rightarrow> string" where
  "getLorawanRegion code =
     (if code = Some 0 then ''AS923-1''
      else if code = Some 1 then ''AU915''
      else if code = Some 2 then ''EU868''
      else if code = Some 3 then ''KR920''
      else if code = Some 4 then ''IN865''
      else if code = Some 5 then ''US915''
      else if code = Some 6 then ''RU864''
      else ''N/A'')"

fun getAlarmType :: "int option \<Rightarrow> string" where
  "getAlarmType code =
     (if code = Some 1 then ''SOS''
      else if code = Some 2 then ''FIRE''
      else if code = Some 3 then ''SOS''
      else ''N/A'')"

text \<open>\<open>byte.toString(16).padStart(2, '0')\<close> and \<open>join(':')\<close>.\<close>

definition hexDigit :: "nat \<Rightarrow> char" where
  "hexDigit n = ''0123456789abcdef'' ! n"

fun hexDigits :: "nat \<Rightarrow> string" where
  "hexDigits n = (if n < 16 then [hexDigit n] else hexDigits (n div 16) @ [hexDigit (n mod 16)])"

declare hexDigits.simps [simp del]

definition toString16 :: "int \<Rightarrow> string" where
  "toString16 byte = (if byte < 0 then CHR ''-'' # hexDigits (nat (- byte)) else hexDigits (nat byte))"

definition padStart :: "string \<Rightarrow> nat \<Rightarrow> char \<Rightarrow> string" where
  "padStart str targetLength c = replicate (targetLength - length str) c @ str"

fun join :: "string \<Rightarrow> string list \<Rightarrow> string" where
  "join sep [] = []"
| "join sep [x] = x"
| "join sep (x # y # xs) = x @ sep @ join sep (y # xs)"

definition getDeviceMac :: "int list \<Rightarrow> string" where
  "getDeviceMac macBytes =
     join '':'' (map (\<lambda>byte. padStart (toString16 byte) 2 CHR ''0'') (toBigEndian macBytes))"

subsection \<open>Uplink decoder\<close>

text \<open>
  The argument of \<open>decodeUplink\<close>. Only \<open>input.bytes\<close> is read; \<open>recvTime\<close> and
  \<open>variables\<close> are left out.
\<close>

record uplink_input =
  bytes_in :: "int list"  \<comment> \<open>\<open>input.bytes\<close>\<close>
  fPort :: int

record sos_data =
  sos_data_type :: string
  sos_alarm :: string
  sos_device_mac :: string

record 'f gps_data =
  gps_data_type :: string
  latitude :: 'f
  longitude :: 'f

record ('f, 'd) vitals_data =
  vitals_data_type :: string
  blood_oxygen :: "int option"
  wear_status :: bool
  stress_level :: "int option"
  rri :: int
  activity_intensity :: "int option"
  blood_pressure_sbp :: "int option"
  blood_pressure_dbp :: "int option"
  calories :: int
  surface_temperature :: 'f
  steps_today :: int
  body_temperature :: 'f
  heart_rate :: "int option"
  vitals_alarm :: string
  battery :: "int option"
  lorawan_region :: string
  beacon_id1 :: int
  beacon_id1_rssi :: "int option"
  beacon_id2 :: int
  beacon_id2_rssi :: "int option"
  beacon_id3 :: int
  beacon_id3_rssi :: "int option"
  movement_detection :: bool
  red_key :: bool
  black_key :: bool
  mainboard_temperature :: "int option"
  uv_value :: "int option"
  fw_version :: "int option"
  fall_detection :: bool
  time_calibration :: bool
  vitals_time :: 'd
  vitals_device_mac :: string

record error_data =
  error :: string

text \<open>The object returned by \<open>decodeUplink\<close> has the single field \<open>data\<close>; this is its value.\<close>

datatype ('f, 'd) uplink_data =
    SOS sos_data
  | GPS "'f gps_data"
  | VITALS "('f, 'd) vitals_data"
  | Invalid error_data

definition decodeSOSData :: "int list \<Rightarrow> sos_data" where
  "decodeSOSData bytes =
     \<lparr> sos_data_type = ''SOS'',
       sos_alarm = getAlarmType (js_index bytes 0),
       sos_device_mac = getDeviceMac (slice bytes 1 7) \<rparr>"

record 'f degrees_minutes =
  degrees :: 'f
  minutes :: 'f

definition parseGPS :: "('f, 'd) runtime \<Rightarrow> int list \<Rightarrow> fault + 'f degrees_minutes" where
  "parseGPS rt bytes =
     bindE (byteArrayToDouble rt bytes) (\<lambda>doubleValue.
       let degs = math_floor rt (f_div rt doubleValue (number rt 100));
           mins = f_sub rt doubleValue (f_mul rt degs (number rt 100))
       in Inr \<lparr> degrees = degs, minutes = mins \<rparr>)"

definition dmToDecimal :: "('f, 'd) runtime \<Rightarrow> 'f \<Rightarrow> 'f \<Rightarrow> string \<Rightarrow> 'f" where
  "dmToDecimal rt degs mins direction =
     (let decimalDegrees = f_add rt degs (f_div rt mins (number rt 60))
      in if direction = ''S'' \<or> direction = ''W'' then f_neg rt decimalDegrees
         else decimalDegrees)"

definition decodeGPSData :: "('f, 'd) runtime \<Rightarrow> int list \<Rightarrow> fault + 'f gps_data" where
  "decodeGPSData rt bytes =
     (let lng_dir = (if js_index bytes 8 = Some 0x45 then ''E''
                     else if js_index bytes 8 = Some 0x57 then ''W'' else ''Unknown'');
          lat_dir = (if js_index bytes 17 = Some 0x4e then ''N''
                     else if js_index bytes 17 = Some 0x53 then ''S'' else ''Unknown'')
      in bindE (parseGPS rt (slice bytes 0 8)) (\<lambda>lngDM.
         bindE (parseGPS rt (slice bytes 9 17)) (\<lambda>latDM.
         let lat = dmToDecimal rt (degrees latDM) (minutes latDM) lat_dir;
             lng = dmToDecimal rt (degrees lngDM) (minutes lngDM) lng_dir
         in Inr \<lparr> gps_data_type = ''GPS'', latitude = lat, longitude = lng \<rparr>)))"

definition decodeVitalsData :: "('f, 'd) runtime \<Rightarrow> int list \<Rightarrow> fault + ('f, 'd) vitals_data" where
  "decodeVitalsData rt bytes =
     (let date = setHours rt (newDate rt) (js_index bytes 36) (js_index bytes 37) (js_index bytes 38) 0 in
      bindE (byteArrayToInteger (toBigEndian (slice bytes 3 5))) (\<lambda>rri_v.
      bindE (byteArrayToInteger (toBigEndian (slice bytes 8 10))) (\<lambda>calories_v.
      bindE (byteArrayToInteger (toBigEndian (slice bytes 10 12))) (\<lambda>surface_v.
      bindE (byteArrayToInteger (toBigEndian (slice bytes 12 14))) (\<lambda>steps_v.
      bindE (byteArrayToInteger (toBigEndian (slice bytes 14 16))) (\<lambda>body_v.
      bindE (byteArrayToInteger (toBigEndian (slice bytes 20 22))) (\<lambda>beacon1_v.
      bindE (byteArrayToInteger (toBigEndian (slice bytes 23 25))) (\<lambda>beacon2_v.
      bindE (byteArrayToInteger (toBigEndian (slice bytes 26 28))) (\<lambda>beacon3_v.
      Inr \<lparr> vitals_data_type = ''VITALS'',
            blood_oxygen = js_index bytes 0,
            wear_status = (js_index bytes 1 = Some 1),
            stress_level = js_index bytes 2,
            rri = rri_v,
            activity_intensity = js_index bytes 5,
            blood_pressure_sbp = js_index bytes 6,
            blood_pressure_dbp = js_index bytes 7,
            calories = calories_v,
            surface_temperature = f_mul rt (number rt surface_v) (hundredth rt),
            steps_today = steps_v,
            body_temperature = f_mul rt (number rt body_v) (hundredth rt),
            heart_rate = js_index bytes 16,
            vitals_alarm = getAlarmType (js_index bytes 17),
            battery = js_index bytes 18,
            lorawan_region = getLorawanRegion (js_index bytes 19),
            beacon_id1 = beacon1_v,
            beacon_id1_rssi = js_index bytes 22,
            beacon_id2 = beacon2_v,
            beacon_id2_rssi = js_index bytes 25,
            beacon_id3 = beacon3_v,
            beacon_id3_rssi = js_index bytes 28,
            movement_detection = (js_index bytes 29 = Some 1),
            red_key = (js_index bytes 30 = Some 1),
            black_key = (js_index bytes 31 = Some 1),
            mainboard_temperature = js_index bytes 32,
            uv_value = js_index bytes 33,
            fw_version = js_index bytes 34,
            fall_detection = (js_index bytes 35 = Some 1),
            time_calibration = (js_index bytes 36 = Some 1),
            vitals_time = date,
            vitals_device_mac = getDeviceMac (slice bytes 41 47) \<rparr>)))))))))"

definition decodeUplink :: "('f, 'd) runtime \<Rightarrow> uplink_input \<Rightarrow> fault + ('f, 'd) uplink_data" where
  "decodeUplink rt input =
     (let bytes = bytes_in input in
      if length bytes = 9 then Inr (SOS (decodeSOSData bytes))
      else if length bytes = 22 then bindE (decodeGPSData rt bytes) (\<lambda>d. Inr (GPS d))
      else if length bytes = 49 then bindE (decodeVitalsData rt bytes) (\<lambda>d. Inr (VITALS d))
      else Inr (Invalid \<lparr> error = ''Invalid payload length'' \<rparr>))"

subsection \<open>An exact runtime for sample frames\<close>

text \<open>
  One runtime, used to run the decoder on concrete frames. A double is the rational number
  that its 64 bits denote (sign, 11-bit exponent with bias 1023, 52-bit fraction), or
  \<open>None\<close> for NaN and the infinities; arithmetic is exact and does not round. A date is a
  number of milliseconds since the epoch in UTC, \<open>None\<close> for an invalid date; the current
  time is the epoch.
\<close>

definition float64_exact :: "int list \<Rightarrow> rat option" where
  "float64_exact view =
     (let bits = foldr (\<lambda>b acc. b + 256 * acc) view 0;
          s = bits div 2 ^ 63;
          e = bits div 2 ^ 52 mod 2048;
          m = bits mod 2 ^ 52;
          mag = (if e = 0 then of_int m / 2 ^ 1074
                 else if e < 1075 then of_int (2 ^ 52 + m) / 2 ^ nat (1075 - e)
                 else of_int (2 ^ 52 + m) * 2 ^ nat (e - 1075))
      in if e = 2047 then None else Some (if s = 1 then - mag else mag))"

definition lift2 :: "(rat \<Rightarrow> rat \<Rightarrow> rat) \<Rightarrow> rat option \<Rightarrow> rat option \<Rightarrow> rat option" where
  "lift2 f a b =
     (case a of None \<Rightarrow> None
      | Some x \<Rightarrow> (case b of None \<Rightarrow> None | Some y \<Rightarrow> Some (f x y)))"

definition exact_div :: "rat option \<Rightarrow> rat option \<Rightarrow> rat option" where
  "exact_div a b = (if b = Some 0 then None else lift2 (\<lambda>x y. x / y) a b)"

definition exact_setHours ::
  "int option \<Rightarrow> int option \<Rightarrow> int option \<Rightarrow> int option \<Rightarrow> int \<Rightarrow> int option" where
  "exact_setHours d h m s ms =
     (case (d, h, m, s) of
        (Some t, Some hh, Some mm, Some ss) \<Rightarrow>
          Some (t div 86400000 * 86400000 + hh * 3600000 + mm * 60000 + ss * 1000 + ms)
      | _ \<Rightarrow> None)"

definition exact_runtime :: "(rat option, int option) runtime" where
  "exact_runtime =
     \<lparr> getFloat64LE = float64_exact,
       number = (\<lambda>n. Some (of_int n)),
       hundredth = Some (1 / 100),
       math_floor = map_option (\<lambda>x. of_int \<lfloor>x\<rfloor>),
       f_add = lift2 (+),
       f_sub = lift2 (-),
       f_mul = lift2 (*),
       f_div = exact_div,
       f_neg = map_option uminus,
       newDate = Some 0,
       setHours = exact_setHours \<rparr>"

subsection \<open>The specification's tables\<close>

text \<open>The ASCII bytes of a text, one per character.\<close>

definition ascii :: "string \<Rightarrow> int list" where
  "ascii s = map (\<lambda>c. int (of_char c)) s"

text \<open>
  The interval code table as the specification lists it:
  1 to '7', 5 to '1', 10 to '2', 15 to '3', 30 to '4', 60 to '5', 120 to '6'.
\<close>

definition spec_interval_code :: "int \<Rightarrow> char option" where
  "spec_interval_code i =
     (if i = 1 then Some CHR ''7''
      else if i = 5 then Some CHR ''1''
      else if i = 10 then Some CHR ''2''
      else if i = 15 then Some CHR ''3''
      else if i = 30 then Some CHR ''4''
      else if i = 60 then Some CHR ''5''
      else if i = 120 then Some CHR ''6''
      else None)"

subsection \<open>The standard model of rounding\<close>

text \<open>
  What IEEE-754 double arithmetic with rounding to nearest guarantees, as a condition on a
  runtime. \<open>val\<close> gives the real number that a finite double denotes (\<open>None\<close> for NaN and
  the infinities) and \<open>rnd\<close> is the rounding of a real number to a double. Rounding is
  monotone, leaves integers up to \<open>2^53\<close> unchanged, and in the range of doubles its error
  is at most the relative error \<open>2^-53\<close> plus half the smallest subnormal, \<open>2^-1075\<close>.
  An arithmetic operation on finite doubles returns the rounded exact result as long as that
  is in range; \<open>Math.floor\<close> and negation are exact.
\<close>

definition rounding_model :: "('f, 'd) runtime \<Rightarrow> ('f \<Rightarrow> real option) \<Rightarrow> (real \<Rightarrow> real) \<Rightarrow> bool" where
  "rounding_model rt val rnd \<longleftrightarrow>
     (\<forall>x y. x \<le> y \<longrightarrow> rnd x \<le> rnd y) \<and>
     (\<forall>n::int. \<bar>n\<bar> \<le> 2 ^ 53 \<longrightarrow> rnd (of_int n) = of_int n) \<and>
     (\<forall>x. \<bar>x\<bar> \<le> 2 ^ 1023 \<longrightarrow> \<bar>rnd x - x\<bar> \<le> \<bar>x\<bar> / 2 ^ 53 + 1 / 2 ^ 1075) \<and>
     (\<forall>n. \<bar>n\<bar> \<le> 2 ^ 53 \<longrightarrow> val (number rt n) = Some (of_int n)) \<and>
     (\<forall>a x. val a = Some x \<longrightarrow> val (math_floor rt a) = Some (of_int \<lfloor>x\<rfloor>)) \<and>
     (\<forall>a x. val a = Some x \<longrightarrow> val (f_neg rt a) = Some (- x)) \<and>
     (\<forall>a b x y. val a = Some x \<and> val b = Some y \<and> \<bar>x + y\<bar> \<le> 2 ^ 1023 \<longrightarrow>
        val (f_add rt a b) = Some (rnd (x + y))) \<and>
     (\<forall>a b x y. val a = Some x \<and> val b = Some y \<and> \<bar>x - y\<bar> \<le> 2 ^ 1023 \<longrightarrow>
        val (f_sub rt a b) = Some (rnd (x - y))) \<and>
     (\<forall>a b x y. val a = Some x \<and> val b = Some y \<and> \<bar>x * y\<bar> \<le> 2 ^ 1023 \<longrightarrow>
        val (f_mul rt a b) = Some (rnd (x * y))) \<and>
     (\<forall>a b x y. val a = Some x \<and> val b = Some y \<and> y \<noteq> 0 \<and> \<bar>x / y\<bar> \<le> 2 ^ 1023 \<longrightarrow>
        val (f_div rt a b) = Some (rnd (x / y)))"

text \<open>
  Modelled from the spec: the writer of GPS frames is not in the repository. The
  specification describes its output: the coordinate in packed form \<open>DDMM.MMMMM\<close> (whole
  degrees times 100, plus the minutes) as a little-endian double in bytes 0..7 (longitude)
  and 9..16 (latitude), with the hemisphere byte E or W at index 8 and N or S at index 17.
  The packed form is taken of the magnitude of the coordinate; the hemisphere byte carries
  the sign, W and S for a negative coordinate.
\<close>

definition packed_ddmm :: "real \<Rightarrow> real" where
  "packed_ddmm c = 100 * of_int \<lfloor>\<bar>c\<bar>\<rfloor> + 60 * (\<bar>c\<bar> - of_int \<lfloor>\<bar>c\<bar>\<rfloor>)"

definition gps_frame ::
  "('f, 'd) runtime \<Rightarrow> ('f \<Rightarrow> real option) \<Rightarrow> (real \<Rightarrow> real) \<Rightarrow> real \<Rightarrow> real \<Rightarrow> int list \<Rightarrow> bool" where
  "gps_frame rt val rnd lat lng bytes \<longleftrightarrow>
     length bytes = 22 \<and> set bytes \<subseteq> {0..255} \<and>
     val (getFloat64LE rt (slice bytes 0 8)) = Some (rnd (packed_ddmm lng)) \<and>
     bytes ! 8 = (if lng < 0 then 0x57 else 0x45) \<and>
     val (getFloat64LE rt (slice bytes 9 17)) = Some (rnd (packed_ddmm lat)) \<and>
     bytes ! 17 = (if lat < 0 then 0x53 else 0x4e)"

subsection \<open>Helper facts\<close>

lemma stringToBytes_loop_eq:
  "stringToBytes_loop str i acc = acc @ map (\<lambda>c. int (of_char c)) (drop i str)"
proof (induction str i acc rule: stringToBytes_loop.induct)
  case (1 str i byteArray)
  show ?case
  proof (cases "i < length str")
    case True
    have "stringToBytes_loop str i byteArray
          = stringToBytes_loop str (i + 1) (byteArray @ [charCodeAt str i])"
      using True by (subst stringToBytes_loop.simps) simp
    also have "\<dots> = (byteArray @ [charCodeAt str i]) @ map (\<lambda>c. int (of_char c)) (drop (i + 1) str)"
      using "1.IH" [OF True] by simp
    also have "\<dots> = byteArray @ map (\<lambda>c. int (of_char c)) (drop i str)"
      using True by (simp add: charCodeAt_def Cons_nth_drop_Suc [symmetric])
    finally show ?thesis .
  next
    case False
    then show ?thesis
      by (subst stringToBytes_loop.simps) simp
  qed
qed

lemma toBigEndian_loop_eq:
  "length r = length bs \<Longrightarrow> i \<le> length bs \<Longrightarrow>
   toBigEndian_loop bs i r = take i r @ map ToUint8 (rev (take (length bs - i) bs))"
proof (induction bs i r rule: toBigEndian_loop.induct)
  case (1 byteArray i reversedArray)
  let ?n = "length byteArray"
  show ?case
  proof (cases "i < ?n")
    case True
    let ?v = "ToUint8 (byteArray ! (?n - 1 - i))"
    have step: "toBigEndian_loop byteArray i reversedArray
          = toBigEndian_loop byteArray (i + 1) (reversedArray[i := ?v])"
      using True by (subst toBigEndian_loop.simps) simp
    have ih: "toBigEndian_loop byteArray (i + 1) (reversedArray[i := ?v])
          = take (i + 1) (reversedArray[i := ?v]) @ map ToUint8 (rev (take (?n - (i + 1)) byteArray))"
      using "1.IH" [OF True] "1.prems" True by simp
    have t1: "take (i + 1) (reversedArray[i := ?v]) = take i reversedArray @ [?v]"
      using True "1.prems" by (simp add: take_Suc_conv_app_nth)
    have "?n - i = Suc (?n - (i + 1))" using True by simp
    then have t2: "take (?n - i) byteArray = take (?n - (i + 1)) byteArray @ [byteArray ! (?n - 1 - i)]"
      using True by (simp add: take_Suc_conv_app_nth)
    show ?thesis
      unfolding step ih t1 t2 by simp
  next
    case False
    with "1.prems" have "i = ?n" by simp
    then show ?thesis
      using "1.prems" by (subst toBigEndian_loop.simps) simp
  qed
qed

lemma toBigEndian_eq: "toBigEndian byteArray = map ToUint8 (rev byteArray)"
  by (simp add: toBigEndian_def toBigEndian_loop_eq)

lemma length_toBigEndian: "length (toBigEndian byteArray) = length byteArray"
  by (simp add: toBigEndian_eq)

lemma length_slice: "fin \<le> length xs \<Longrightarrow> length (slice xs start fin) = fin - start"
  by (simp add: slice_def)

lemma setUint8_forEach_eq:
  "i + length bs \<le> length view \<Longrightarrow>
   setUint8_forEach bs i view = Inr (take i view @ map ToUint8 bs @ drop (i + length bs) view)"
proof (induction bs arbitrary: i view)
  case Nil
  then show ?case by simp
next
  case (Cons b bs)
  then have lt: "i < length view" by simp
  have "setUint8_forEach (b # bs) i view = setUint8_forEach bs (i + 1) (view[i := ToUint8 b])"
    using lt by simp
  also have "\<dots> = Inr (take (i + 1) (view[i := ToUint8 b]) @ map ToUint8 bs
                        @ drop (i + 1 + length bs) (view[i := ToUint8 b]))"
    using Cons.prems by (intro Cons.IH) simp
  also have "take (i + 1) (view[i := ToUint8 b]) = take i view @ [ToUint8 b]"
    using lt by (simp add: take_Suc_conv_app_nth)
  also have "drop (i + 1 + length bs) (view[i := ToUint8 b]) = drop (i + length (b # bs)) view"
    by simp
  finally show ?case by simp
qed

text \<open>An 8-byte slice fills the buffer exactly; a 2-byte slice is read by \<open>getUint16\<close>.\<close>

lemma byteArrayToDouble_8:
  "length bs = 8 \<Longrightarrow> byteArrayToDouble rt bs = Inr (getFloat64LE rt (map ToUint8 bs))"
  by (simp add: byteArrayToDouble_def setUint8_forEach_eq bindE_def)

lemma byteArrayToInteger_2:
  "length bs = 2 \<Longrightarrow> byteArrayToInteger bs = Inr (getUint16BE (map ToUint8 bs) 0)"
  by (simp add: byteArrayToInteger_def)

text \<open>
  In a 49-byte frame every slice that \<open>decodeVitalsData\<close> hands to \<open>byteArrayToInteger\<close>
  has two bytes; in a 22-byte frame both slices that \<open>decodeGPSData\<close> hands to
  \<open>byteArrayToDouble\<close> have eight.
\<close>

lemma vitals_integer_slices:
  assumes "length bytes = 49"
  shows "length (toBigEndian (slice bytes 3 5)) = 2"
    and "length (toBigEndian (slice bytes 8 10)) = 2"
    and "length (toBigEndian (slice bytes 10 12)) = 2"
    and "length (toBigEndian (slice bytes 12 14)) = 2"
    and "length (toBigEndian (slice bytes 14 16)) = 2"
    and "length (toBigEndian (slice bytes 20 22)) = 2"
    and "length (toBigEndian (slice bytes 23 25)) = 2"
    and "length (toBigEndian (slice bytes 26 28)) = 2"
  using assms by (simp_all add: length_toBigEndian length_slice)

lemma gps_double_slices:
  assumes "length bytes = 22"
  shows "length (slice bytes 0 8) = 8" and "length (slice bytes 9 17) = 8"
  using assms by (simp_all add: length_slice)

lemma decodeVitalsData_ok:
  "length bytes = 49 \<Longrightarrow> \<exists>d. decodeVitalsData rt bytes = Inr d"
  by (simp add: decodeVitalsData_def byteArrayToInteger_2 vitals_integer_slices bindE_def)

lemma decodeGPSData_eq:
  "length bytes = 22 \<Longrightarrow>
   decodeGPSData rt bytes =
     bindE (parseGPS rt (slice bytes 0 8)) (\<lambda>lngDM.
     bindE (parseGPS rt (slice bytes 9 17)) (\<lambda>latDM.
       Inr \<lparr> gps_data_type = ''GPS'',
             latitude = dmToDecimal rt (degrees latDM) (minutes latDM)
               (if bytes ! 17 = 0x4e then ''N'' else if bytes ! 17 = 0x53 then ''S'' else ''Unknown''),
             longitude = dmToDecimal rt (degrees lngDM) (minutes lngDM)
               (if bytes ! 8 = 0x45 then ''E'' else if bytes ! 8 = 0x57 then ''W'' else ''Unknown'') \<rparr>))"
  by (simp add: decodeGPSData_def js_index_def Let_def)

lemma parseGPS_ok:
  "length bs = 8 \<Longrightarrow> \<exists>dm. parseGPS rt bs = Inr dm"
  by (simp add: parseGPS_def byteArrayToDouble_8 bindE_def Let_def)

lemma decodeGPSData_ok:
  "length bytes = 22 \<Longrightarrow> \<exists>d. decodeGPSData rt bytes = Inr d"
proof -
  assume len: "length bytes = 22"
  obtain lngDM where a: "parseGPS rt (slice bytes 0 8) = Inr lngDM"
    using parseGPS_ok [of "slice bytes 0 8" rt] gps_double_slices [OF len] by auto
  obtain latDM where b: "parseGPS rt (slice bytes 9 17) = Inr latDM"
    using parseGPS_ok [of "slice bytes 9 17" rt] gps_double_slices [OF len] by auto
  show ?thesis
    by (simp add: decodeGPSData_eq [OF len] a b bindE_def)
qed

lemma decodeSOSData_sample:
  "decodeSOSData [1, 0, 1, 2, 3, 4, 5, 6, 7]
     = \<lparr> sos_data_type = ''SOS'', sos_alarm = ''SOS'', sos_device_mac = ''05:04:03:02:01:00'' \<rparr>"
  by code_simp

lemma stringToBytes_loop_ascii: "stringToBytes_loop str 0 [] = ascii str"
  by (simp add: stringToBytes_loop_eq ascii_def)

text \<open>Every SCAN command, whatever its flag, is encoded as "SCAN:" and the terminator.\<close>

lemma scan_command_bytes:
  "data_type (data input) = ''SCAN'' \<Longrightarrow>
   encodeDownlink input = Inr (Bytes (ascii ''SCAN:'' @ [13, 10]))"
  by (simp add: encodeDownlink_def stringToBytes_loop_ascii endChar_def)

lemma getUplinkIntervalCode_eq:
  "getUplinkIntervalCode i =
     (case spec_interval_code i of
        Some c \<Rightarrow> Inr (int (of_char c))
      | None \<Rightarrow> Inl (Error ''Invalid uplink interval.''))"
  by (simp add: getUplinkIntervalCode_def intervalMap_def spec_interval_code_def charCodeAt_def)

lemma spec_interval_code_dom:
  "spec_interval_code i \<noteq> None \<longleftrightarrow> i \<in> {1, 5, 10, 15, 30, 60, 120}"
  by (simp add: spec_interval_code_def)

lemma slice_update_after: "fin \<le> k \<Longrightarrow> slice (xs[k := v]) start fin = slice xs start fin"
proof (cases "start \<le> k")
  case True
  assume "fin \<le> k"
  then have "fin - start \<le> k - start" by simp
  then show ?thesis
    using True by (simp add: slice_def drop_update_swap)
next
  case False
  assume "fin \<le> k"
  with False have "fin - start = 0" by simp
  then show ?thesis by (simp add: slice_def)
qed

lemma slice_update_before: "k < start \<Longrightarrow> slice (xs[k := v]) start fin = slice xs start fin"
  by (simp add: slice_def)

lemma gps_sample:
  "decodeUplink exact_runtime \<lparr> bytes_in = [0, 0, 0, 0, 0, 4, 170, 64, 0,
        0, 0, 0, 0, 0, 4, 170, 64, 0, 0, 0, 0, 0], fPort = 1 \<rparr>
     = Inr (GPS \<lparr> gps_data_type = ''GPS'', latitude = Some (67 / 2), longitude = Some (67 / 2) \<rparr>)"
  by code_simp

lemma byteArrayToInteger_pair:
  "0 \<le> a \<Longrightarrow> a \<le> 255 \<Longrightarrow> 0 \<le> b \<Longrightarrow> b \<le> 255 \<Longrightarrow>
   byteArrayToInteger (toBigEndian [a, b]) = Inr (a + 256 * b)"
  by (simp add: byteArrayToInteger_def toBigEndian_eq ToUint8_def getUint16BE_def)

lemma slice_pair:
  "k + 1 < length bytes \<Longrightarrow> slice bytes k (k + 2) = [bytes ! k, bytes ! (k + 1)]"
  by (simp add: slice_def take_Suc_conv_app_nth numeral_2_eq_2 Cons_nth_drop_Suc [symmetric])

lemma little_endian_16:
  assumes "k + 1 < length bytes" and "set bytes \<subseteq> {0..255}"
  shows "byteArrayToInteger (toBigEndian (slice bytes k (k + 2)))
           = Inr (bytes ! k + 256 * bytes ! (k + 1))"
proof -
  have "bytes ! k \<in> {0..255}" "bytes ! (k + 1) \<in> {0..255}"
    using assms by (auto simp: subset_iff)
  then show ?thesis
    unfolding slice_pair [OF assms(1)] by (intro byteArrayToInteger_pair) simp_all
qed

text \<open>
  Every 16-bit field of a Vitals frame is its two wire bytes read little-endian.
\<close>

lemma vitals_little_endian:
  assumes "length bytes = 49" and "set bytes \<subseteq> {0..255}"
    and "decodeVitalsData rt bytes = Inr d"
  shows "rri d = bytes ! 3 + 256 * bytes ! 4"
    and "calories d = bytes ! 8 + 256 * bytes ! 9"
    and "steps_today d = bytes ! 12 + 256 * bytes ! 13"
    and "beacon_id1 d = bytes ! 20 + 256 * bytes ! 21"
    and "beacon_id2 d = bytes ! 23 + 256 * bytes ! 24"
    and "beacon_id3 d = bytes ! 26 + 256 * bytes ! 27"
    and "surface_temperature d = f_mul rt (number rt (bytes ! 10 + 256 * bytes ! 11)) (hundredth rt)"
    and "body_temperature d = f_mul rt (number rt (bytes ! 14 + 256 * bytes ! 15)) (hundredth rt)"
proof -
  have e: "byteArrayToInteger (toBigEndian (slice bytes 3 5)) = Inr (bytes ! 3 + 256 * bytes ! 4)"
    "byteArrayToInteger (toBigEndian (slice bytes 8 10)) = Inr (bytes ! 8 + 256 * bytes ! 9)"
    "byteArrayToInteger (toBigEndian (slice bytes 10 12)) = Inr (bytes ! 10 + 256 * bytes ! 11)"
    "byteArrayToInteger (toBigEndian (slice bytes 12 14)) = Inr (bytes ! 12 + 256 * bytes ! 13)"
    "byteArrayToInteger (toBigEndian (slice bytes 14 16)) = Inr (bytes ! 14 + 256 * bytes ! 15)"
    "byteArrayToInteger (toBigEndian (slice bytes 20 22)) = Inr (bytes ! 20 + 256 * bytes ! 21)"
    "byteArrayToInteger (toBigEndian (slice bytes 23 25)) = Inr (bytes ! 23 + 256 * bytes ! 24)"
    "byteArrayToInteger (toBigEndian (slice bytes 26 28)) = Inr (bytes ! 26 + 256 * bytes ! 27)"
    using little_endian_16 [of 3 bytes] little_endian_16 [of 8 bytes] little_endian_16 [of 10 bytes] little_endian_16 [of 12 bytes]
      little_endian_16 [of 14 bytes] little_endian_16 [of 20 bytes] little_endian_16 [of 23 bytes] little_endian_16 [of 26 bytes] assms(1,2)
    by simp_all
  from assms(3) show "rri d = bytes ! 3 + 256 * bytes ! 4"
    and "calories d = bytes ! 8 + 256 * bytes ! 9"
    and "steps_today d = bytes ! 12 + 256 * bytes ! 13"
    and "beacon_id1 d = bytes ! 20 + 256 * bytes ! 21"
    and "beacon_id2 d = bytes ! 23 + 256 * bytes ! 24"
    and "beacon_id3 d = bytes ! 26 + 256 * bytes ! 27"
    and "surface_temperature d = f_mul rt (number rt (bytes ! 10 + 256 * bytes ! 11)) (hundredth rt)"
    and "body_temperature d = f_mul rt (number rt (bytes ! 14 + 256 * bytes ! 15)) (hundredth rt)"
    by (auto simp: decodeVitalsData_def e bindE_def)
qed

text \<open>Facts for the round trip of a GPS coordinate.\<close>

lemma small_err:
  assumes "rounding_model rt val rnd" and "\<bar>y\<bar> \<le> 200000000"
  shows "\<bar>rnd y - y\<bar> \<le> 1 / 10000000"
proof -
  have "\<bar>y\<bar> \<le> 2 ^ 1023" using assms(2) by simp
  then have "\<bar>rnd y - y\<bar> \<le> \<bar>y\<bar> / 2 ^ 53 + 1 / 2 ^ 1075"
    using assms(1) by (simp add: rounding_model_def)
  also have "\<dots> \<le> 200000000 / 2 ^ 53 + 1 / 2 ^ 53"
    using assms(2) by (intro add_mono divide_right_mono) simp_all
  also have "\<dots> \<le> 1 / 10000000" by simp
  finally show ?thesis .
qed

lemma rnd_int:
  assumes "rounding_model rt val rnd" and "\<bar>n\<bar> \<le> 2 ^ 53"
  shows "rnd (of_int n) = of_int n"
  using assms by (simp add: rounding_model_def)

lemma rnd_mono:
  assumes "rounding_model rt val rnd" and "x \<le> y"
  shows "rnd x \<le> rnd y"
  using assms by (simp add: rounding_model_def)

lemma coordinate_round_trip:
  fixes c :: real
  assumes m: "rounding_model rt val rnd"
    and c: "\<bar>c\<bar> \<le> 1000000"
    and d: "val d = Some (rnd (packed_ddmm c))"
  shows "\<exists>g. val (f_add rt (math_floor rt (f_div rt d (number rt 100)))
                  (f_div rt (f_sub rt d (f_mul rt (math_floor rt (f_div rt d (number rt 100)))
                                                 (number rt 100)))
                            (number rt 60))) = Some g \<and>
             \<bar>g - \<bar>c\<bar>\<bar> \<le> 1 / 1000000"
proof -
  define D where "D = \<lfloor>\<bar>c\<bar>\<rfloor>"
  define p where "p = packed_ddmm c"
  define x where "x = rnd p"
  define E :: real where "E = 1 / 10000000"
  have D0: "0 \<le> D" and DB: "D \<le> 1000000" using c by (auto simp: D_def floor_le_iff le_floor_iff)
  have fr: "0 \<le> \<bar>c\<bar> - of_int D" "\<bar>c\<bar> - of_int D < 1"
    by (simp_all add: D_def) linarith+
  have p_eq: "p = 100 * of_int D + 60 * (\<bar>c\<bar> - of_int D)"
    by (simp add: p_def packed_ddmm_def D_def)
  have p_lo: "100 * of_int D \<le> p" and p_hi: "p < 100 * of_int D + 60"
    using fr by (simp_all add: p_eq)
  have rD: "real_of_int D \<le> 1000000" "0 \<le> real_of_int D" using D0 DB by simp_all
  have n100: "val (number rt 100) = Some 100" and n60: "val (number rt 60) = Some 60"
    using m by (simp_all add: rounding_model_def)
  \<comment> \<open>the double in the frame\<close>
  have "\<bar>p\<bar> \<le> 200000000" using p_lo p_hi rD by simp
  then have xp: "\<bar>x - p\<bar> \<le> E" unfolding x_def E_def by (rule small_err [OF m])
  have "rnd (of_int (100 * D)) = of_int (100 * D)"
    using D0 DB by (intro rnd_int [OF m]) simp
  moreover have "rnd (of_int (100 * D)) \<le> rnd p"
    using p_lo by (intro rnd_mono [OF m]) simp
  ultimately have x_lo: "100 * of_int D \<le> x" by (simp add: x_def)
  have x_hi: "x \<le> 100 * of_int D + 60 + E" using xp p_hi by linarith
  \<comment> \<open>degrees\<close>
  define q where "q = rnd (x / 100)"
  have "\<bar>x / 100\<bar> \<le> 2 ^ 1023" using x_lo x_hi rD by (simp add: E_def)
  then have vq: "val (f_div rt d (number rt 100)) = Some q"
    using m d n100 by (simp add: rounding_model_def q_def x_def p_def)
  have "\<bar>x / 100\<bar> \<le> 200000000" using x_lo x_hi rD by (simp add: E_def)
  then have qe: "\<bar>q - x / 100\<bar> \<le> E" unfolding q_def E_def by (rule small_err [OF m])
  have "rnd (of_int D) = of_int D" using D0 DB by (intro rnd_int [OF m]) simp
  moreover have "rnd (of_int D) \<le> rnd (x / 100)" using x_lo by (intro rnd_mono [OF m]) simp
  ultimately have q_lo: "of_int D \<le> q" by (simp add: q_def)
  have q_hi: "q < of_int D + 1" using qe x_hi unfolding E_def by linarith
  have fq: "\<lfloor>q\<rfloor> = D" using q_lo q_hi by (simp add: floor_eq_iff)
  have vdeg: "val (math_floor rt (f_div rt d (number rt 100))) = Some (of_int D)"
    using m vq fq by (simp add: rounding_model_def)
  \<comment> \<open>minutes\<close>
  have r100: "rnd (of_int D * 100) = of_int D * 100"
    using rnd_int [OF m, of "D * 100"] D0 DB by simp
  have "\<bar>real_of_int D * 100\<bar> \<le> 2 ^ 1023" using rD by simp
  then have vmul: "val (f_mul rt (math_floor rt (f_div rt d (number rt 100))) (number rt 100))
      = Some (of_int D * 100)"
    using m vdeg n100 r100 by (simp add: rounding_model_def)
  define mi where "mi = rnd (x - of_int D * 100)"
  have ab: "\<bar>x - of_int D * 100\<bar> \<le> 61" using x_lo x_hi by (simp add: E_def)
  then have "\<bar>x - of_int D * 100\<bar> \<le> 2 ^ 1023" by simp
  then have vmin: "val (f_sub rt d (f_mul rt (math_floor rt (f_div rt d (number rt 100)))
      (number rt 100))) = Some mi"
    using m d vmul by (simp add: rounding_model_def mi_def x_def p_def)
  have me: "\<bar>mi - (x - of_int D * 100)\<bar> \<le> E"
    unfolding mi_def E_def using ab by (intro small_err [OF m]) simp
  define r where "r = rnd (mi / 60)"
  have mib: "\<bar>mi\<bar> \<le> 62" using me ab unfolding E_def by linarith
  then have "\<bar>mi / 60\<bar> \<le> 2 ^ 1023" by simp
  then have vr: "val (f_div rt (f_sub rt d (f_mul rt (math_floor rt (f_div rt d (number rt 100)))
      (number rt 100))) (number rt 60)) = Some r"
    using m vmin n60 by (simp add: rounding_model_def r_def)
  have re: "\<bar>r - mi / 60\<bar> \<le> E"
    unfolding r_def E_def using mib by (intro small_err [OF m]) simp
  \<comment> \<open>decimal degrees\<close>
  define g where "g = rnd (of_int D + r)"
  have rb: "\<bar>r\<bar> \<le> 2" using re mib unfolding E_def by linarith
  have sb: "\<bar>of_int D + r\<bar> \<le> 1000002" using rb rD by linarith
  then have "\<bar>of_int D + r\<bar> \<le> 2 ^ 1023" by simp
  then have vg: "val (f_add rt (math_floor rt (f_div rt d (number rt 100)))
      (f_div rt (f_sub rt d (f_mul rt (math_floor rt (f_div rt d (number rt 100)))
      (number rt 100))) (number rt 60))) = Some g"
    using m vdeg vr by (simp add: rounding_model_def g_def)
  have ge: "\<bar>g - (of_int D + r)\<bar> \<le> E"
    unfolding g_def E_def using sb by (intro small_err [OF m]) simp
  define a where "a = \<bar>c\<bar>"
  have a: "a = of_int D + (p - 100 * of_int D) / 60"
    by (simp add: a_def p_eq diff_divide_distrib)
  from ge have g1: "g - (of_int D + r) \<le> E" "(of_int D + r) - g \<le> E" by linarith+
  from re have r1: "r - mi / 60 \<le> E" "mi / 60 - r \<le> E" by linarith+
  from me have m1: "mi - (x - of_int D * 100) \<le> E" "(x - of_int D * 100) - mi \<le> E"
    by linarith+
  from xp have x1: "x - p \<le> E" "p - x \<le> E" by linarith+
  have up: "g - a \<le> 4 * E" using a g1 r1 m1 x1 by argo
  have lo: "a - g \<le> 4 * E" using a g1 r1 m1 x1 by argo
  from up lo have "\<bar>g - a\<bar> \<le> 4 * E" by linarith
  then have "\<bar>g - \<bar>c\<bar>\<bar> \<le> 1 / 1000000" unfolding E_def a_def by linarith
  with vg show ?thesis by blast
qed


lemma map_ToUint8_slice:
  assumes "set bytes \<subseteq> {0..255}"
  shows "map ToUint8 (slice bytes start fin) = slice bytes start fin"
proof (rule map_idI)
  fix b assume "b \<in> set (slice bytes start fin)"
  then have "b \<in> set bytes"
    unfolding slice_def by (meson in_set_dropD in_set_takeD)
  with assms have "0 \<le> b" "b \<le> 255" by auto
  then show "ToUint8 b = b" by (simp add: ToUint8_def)
qed

lemma parseGPS_frame:
  assumes "length bytes = 22" and "set bytes \<subseteq> {0..255}"
  shows "parseGPS rt (slice bytes 0 8) =
           Inr \<lparr> degrees = math_floor rt (f_div rt (getFloat64LE rt (slice bytes 0 8)) (number rt 100)),
                 minutes = f_sub rt (getFloat64LE rt (slice bytes 0 8))
                   (f_mul rt (math_floor rt (f_div rt (getFloat64LE rt (slice bytes 0 8)) (number rt 100)))
                      (number rt 100)) \<rparr>"
    and "parseGPS rt (slice bytes 9 17) =
           Inr \<lparr> degrees = math_floor rt (f_div rt (getFloat64LE rt (slice bytes 9 17)) (number rt 100)),
                 minutes = f_sub rt (getFloat64LE rt (slice bytes 9 17))
                   (f_mul rt (math_floor rt (f_div rt (getFloat64LE rt (slice bytes 9 17)) (number rt 100)))
                      (number rt 100)) \<rparr>"
  using gps_double_slices [OF assms(1)]
  by (simp_all add: parseGPS_def byteArrayToDouble_8 bindE_def Let_def map_ToUint8_slice [OF assms(2)])

lemma exact_rounding_model: "rounding_model exact_runtime (map_option of_rat) (\<lambda>x. x)"
  unfolding rounding_model_def
proof (intro conjI allI impI)
  fix n :: int
  show "map_option of_rat (number exact_runtime n) = Some (real_of_int n)"
    by (simp add: exact_runtime_def)
next
  fix a x assume "map_option of_rat a = Some (x :: real)"
  then show "map_option of_rat (math_floor exact_runtime a) = Some (real_of_int \<lfloor>x\<rfloor>)"
    by (auto simp: exact_runtime_def)
next
  fix a x assume "map_option of_rat a = Some (x :: real)"
  then show "map_option of_rat (f_neg exact_runtime a) = Some (- x)"
    by (auto simp: exact_runtime_def of_rat_minus)
next
  fix a b x y
  assume "map_option of_rat a = Some (x :: real) \<and> map_option of_rat b = Some y \<and> \<bar>x + y\<bar> \<le> 2 ^ 1023"
  then show "map_option of_rat (f_add exact_runtime a b) = Some (x + y)"
    by (auto simp: exact_runtime_def lift2_def of_rat_add)
next
  fix a b x y
  assume "map_option of_rat a = Some (x :: real) \<and> map_option of_rat b = Some y \<and> \<bar>x - y\<bar> \<le> 2 ^ 1023"
  then show "map_option of_rat (f_sub exact_runtime a b) = Some (x - y)"
    by (auto simp: exact_runtime_def lift2_def of_rat_diff)
next
  fix a b x y
  assume "map_option of_rat a = Some (x :: real) \<and> map_option of_rat b = Some y \<and> \<bar>x * y\<bar> \<le> 2 ^ 1023"
  then show "map_option of_rat (f_mul exact_runtime a b) = Some (x * y)"
    by (auto simp: exact_runtime_def lift2_def of_rat_mult)
next
  fix a b x y
  assume "map_option of_rat a = Some (x :: real) \<and> map_option of_rat b = Some y \<and> y \<noteq> 0
            \<and> \<bar>x / y\<bar> \<le> 2 ^ 1023"
  then show "map_option of_rat (f_div exact_runtime a b) = Some (x / y)"
    by (auto simp: exact_runtime_def exact_div_def lift2_def of_rat_divide)
qed simp_all

lemma gps_sample_south:
  "decodeUplink exact_runtime \<lparr> bytes_in = [0, 0, 0, 0, 0, 4, 170, 64, 0x45,
        0, 0, 0, 0, 0, 4, 170, 64, 0x53, 0, 0, 0, 0], fPort = 1 \<rparr>
     = Inr (GPS \<lparr> gps_data_type = ''GPS'', latitude = Some (- (67 / 2)), longitude = Some (67 / 2) \<rparr>)"
  by code_simp

lemma float64_exact_3330: "float64_exact [0, 0, 0, 0, 0, 4, 170, 64] = Some 3330"
  by (simp add: float64_exact_def)

lemma gps_frame_sample:
  "gps_frame exact_runtime (map_option of_rat) (\<lambda>x. x) (- (67 / 2)) (67 / 2)
     [0, 0, 0, 0, 0, 4, 170, 64, 0x45, 0, 0, 0, 0, 0, 4, 170, 64, 0x53, 0, 0, 0, 0]"
proof -
  have s1: "slice [0, 0, 0, 0, 0, 4, 170, 64, 0x45, 0, 0, 0, 0, 0, 4, 170, 64, 0x53, 0, 0, 0, 0 :: int] 0 8
      = [0, 0, 0, 0, 0, 4, 170, 64]"
    by code_simp
  have s2: "slice [0, 0, 0, 0, 0, 4, 170, 64, 0x45, 0, 0, 0, 0, 0, 4, 170, 64, 0x53, 0, 0, 0, 0 :: int] 9 17
      = [0, 0, 0, 0, 0, 4, 170, 64]"
    by code_simp
  have f: "\<lfloor>67 / 2 :: real\<rfloor> = 33" by (simp add: floor_eq_iff)
  have p: "packed_ddmm (67 / 2) = 3330" "packed_ddmm (- (67 / 2)) = 3330"
    by (simp_all add: packed_ddmm_def f)
  have g: "getFloat64LE exact_runtime = float64_exact" by (simp add: exact_runtime_def)
  show ?thesis
    unfolding gps_frame_def s1 s2 p g float64_exact_3330 by simp
qed

section \<open>The claims\<close>

subsection \<open>Uplink decoder\<close>

text \<open>
  Claim C1. For every byte sequence whose length is not 9, 22 or 49, \<open>decodeUplink\<close>
  returns the error record with the message "Invalid payload length" and nothing else; it
  returns (\<open>Inr\<close>), it does not raise a fault.
\<close>

theorem decodeUplink_invalid_length:
  "length (bytes_in input) \<notin> {9, 22, 49} \<Longrightarrow>
   decodeUplink rt input = Inr (Invalid \<lparr> error = ''Invalid payload length'' \<rparr>)"
  by (simp add: decodeUplink_def)

theorem decodeUplink_invalid_length_witness:
  "length (bytes_in \<lparr> bytes_in = [1, 2, 3], fPort = 1 \<rparr>) \<notin> {9, 22, 49} \<and>
   decodeUplink exact_runtime \<lparr> bytes_in = [1, 2, 3], fPort = 1 \<rparr>
     = Inr (Invalid \<lparr> error = ''Invalid payload length'' \<rparr>)"
  using decodeUplink_invalid_length [of "\<lparr> bytes_in = [1, 2, 3], fPort = 1 \<rparr>" exact_runtime]
  by simp

text \<open>
  Claim C2, as the specification states it: decoding \<open>[1,0,1,2,3,4,5,6,7]\<close> yields an SOS
  record with alarm "SOS" and device_mac "06:05:04:03:02:01". The frame is decoded as SOS and
  the alarm is "SOS", but the MAC is not the one stated: the slice \<open>bytes.slice(1, 7)\<close> is
  \<open>[0,1,2,3,4,5]\<close>, so the last byte 7 and the byte 6 are not part of it.
\<close>

theorem sos_device_mac_counterexample:
  "decodeUplink exact_runtime \<lparr> bytes_in = [1, 0, 1, 2, 3, 4, 5, 6, 7], fPort = 1 \<rparr>
     = Inr (SOS (decodeSOSData [1, 0, 1, 2, 3, 4, 5, 6, 7])) \<and>
   sos_alarm (decodeSOSData [1, 0, 1, 2, 3, 4, 5, 6, 7]) = ''SOS'' \<and>
   sos_device_mac (decodeSOSData [1, 0, 1, 2, 3, 4, 5, 6, 7]) \<noteq> ''06:05:04:03:02:01''"
  by (simp add: decodeUplink_def decodeSOSData_sample)

text \<open>
  Claim C2, amended: decoding \<open>[1,0,1,2,3,4,5,6,7]\<close> yields an SOS record with alarm "SOS"
  and device_mac "05:04:03:02:01:00", in every runtime and on every port.
\<close>

theorem decodeUplink_sos_frame:
  "decodeUplink rt \<lparr> bytes_in = [1, 0, 1, 2, 3, 4, 5, 6, 7], fPort = p \<rparr>
     = Inr (SOS \<lparr> sos_data_type = ''SOS'', sos_alarm = ''SOS'',
                  sos_device_mac = ''05:04:03:02:01:00'' \<rparr>)"
  by (simp add: decodeUplink_def decodeSOSData_sample)

text \<open>
  Claim C4. In every runtime that satisfies the standard model of rounding, take a latitude
  and a longitude of magnitude at most 1000000 degrees (every geographic coordinate is) and
  a 22-byte frame that holds their packed forms as doubles with the matching hemisphere
  bytes. Decoding it succeeds, and the decoded latitude and longitude denote numbers within
  1e-5 of the original decimal degrees.
\<close>

theorem gps_round_trip:
  assumes "rounding_model rt val rnd"
    and "gps_frame rt val rnd lat lng (bytes_in input)"
    and "\<bar>lat\<bar> \<le> 1000000" and "\<bar>lng\<bar> \<le> 1000000"
  shows "\<exists>la lo glat glng.
           decodeUplink rt input
             = Inr (GPS \<lparr> gps_data_type = ''GPS'', latitude = la, longitude = lo \<rparr>) \<and>
           val la = Some glat \<and> val lo = Some glng \<and>
           \<bar>glat - lat\<bar> \<le> 1 / 100000 \<and> \<bar>glng - lng\<bar> \<le> 1 / 100000"
proof -
  let ?bytes = "bytes_in input"
  let ?dm = "\<lambda>d. f_add rt (math_floor rt (f_div rt d (number rt 100)))
                  (f_div rt (f_sub rt d (f_mul rt (math_floor rt (f_div rt d (number rt 100)))
                                                 (number rt 100)))
                            (number rt 60))"
  let ?xlng = "getFloat64LE rt (slice ?bytes 0 8)"
  let ?xlat = "getFloat64LE rt (slice ?bytes 9 17)"
  from assms(2) have len: "length ?bytes = 22" and rng: "set ?bytes \<subseteq> {0..255}"
    and vlng: "val ?xlng = Some (rnd (packed_ddmm lng))"
    and mlng: "?bytes ! 8 = (if lng < 0 then 0x57 else 0x45)"
    and vlat: "val ?xlat = Some (rnd (packed_ddmm lat))"
    and mlat: "?bytes ! 17 = (if lat < 0 then 0x53 else 0x4e)"
    by (simp_all add: gps_frame_def)
  obtain glng where glng: "val (?dm ?xlng) = Some glng" "\<bar>glng - \<bar>lng\<bar>\<bar> \<le> 1 / 1000000"
    using coordinate_round_trip [OF assms(1) assms(4) vlng] by blast
  obtain glat where glat: "val (?dm ?xlat) = Some glat" "\<bar>glat - \<bar>lat\<bar>\<bar> \<le> 1 / 1000000"
    using coordinate_round_trip [OF assms(1) assms(3) vlat] by blast
  have neg: "val (f_neg rt a) = Some (- x)" if "val a = Some x" for a x
    using assms(1) that by (simp add: rounding_model_def)
  define la where "la = (if lat < 0 then f_neg rt (?dm ?xlat) else ?dm ?xlat)"
  define lo where "lo = (if lng < 0 then f_neg rt (?dm ?xlng) else ?dm ?xlng)"
  have dec: "decodeUplink rt input
      = Inr (GPS \<lparr> gps_data_type = ''GPS'', latitude = la, longitude = lo \<rparr>)"
    using len mlng mlat
    by (simp add: decodeUplink_def decodeGPSData_eq [OF len] parseGPS_frame [OF len rng]
        bindE_def dmToDecimal_def Let_def la_def lo_def)
  have vla: "val la = Some (if lat < 0 then - glat else glat)"
    using glat(1) neg by (simp add: la_def)
  have vlo: "val lo = Some (if lng < 0 then - glng else glng)"
    using glng(1) neg by (simp add: lo_def)
  have ela: "\<bar>(if lat < 0 then - glat else glat) - lat\<bar> \<le> 1 / 100000"
  proof (cases "lat < 0")
    case True
    with glat(2) have "\<bar>- glat - lat\<bar> \<le> 1 / 100000" by linarith
    with True show ?thesis by (simp only: if_True)
  next
    case False
    with glat(2) have "\<bar>glat - lat\<bar> \<le> 1 / 100000" by linarith
    with False show ?thesis by (simp only: if_False)
  qed
  have elo: "\<bar>(if lng < 0 then - glng else glng) - lng\<bar> \<le> 1 / 100000"
  proof (cases "lng < 0")
    case True
    with glng(2) have "\<bar>- glng - lng\<bar> \<le> 1 / 100000" by linarith
    with True show ?thesis by (simp only: if_True)
  next
    case False
    with glng(2) have "\<bar>glng - lng\<bar> \<le> 1 / 100000" by linarith
    with False show ?thesis by (simp only: if_False)
  qed
  from dec vla vlo ela elo show ?thesis by blast
qed

theorem gps_round_trip_witness:
  "rounding_model exact_runtime (map_option of_rat) (\<lambda>x. x) \<and>
   gps_frame exact_runtime (map_option of_rat) (\<lambda>x. x) (- (67 / 2)) (67 / 2)
     [0, 0, 0, 0, 0, 4, 170, 64, 0x45, 0, 0, 0, 0, 0, 4, 170, 64, 0x53, 0, 0, 0, 0] \<and>
   decodeUplink exact_runtime \<lparr> bytes_in = [0, 0, 0, 0, 0, 4, 170, 64, 0x45,
        0, 0, 0, 0, 0, 4, 170, 64, 0x53, 0, 0, 0, 0], fPort = 1 \<rparr>
     = Inr (GPS \<lparr> gps_data_type = ''GPS'', latitude = Some (- (67 / 2)), longitude = Some (67 / 2) \<rparr>) \<and>
   (\<exists>la lo (glat :: real) (glng :: real).
      decodeUplink exact_runtime \<lparr> bytes_in = [0, 0, 0, 0, 0, 4, 170, 64, 0x45,
        0, 0, 0, 0, 0, 4, 170, 64, 0x53, 0, 0, 0, 0], fPort = 1 \<rparr>
        = Inr (GPS \<lparr> gps_data_type = ''GPS'', latitude = la, longitude = lo \<rparr>) \<and>
      map_option of_rat la = Some glat \<and> map_option of_rat lo = Some glng \<and>
      \<bar>glat - (- (67 / 2))\<bar> \<le> 1 / 100000 \<and> \<bar>glng - 67 / 2\<bar> \<le> 1 / 100000)"
proof -
  let ?i = "\<lparr> bytes_in = [0, 0, 0, 0, 0, 4, 170, 64, 0x45,
        0, 0, 0, 0, 0, 4, 170, 64, 0x53, 0, 0, 0, 0], fPort = 1 \<rparr>"
  have fr: "gps_frame exact_runtime (map_option of_rat) (\<lambda>x. x) (- (67 / 2)) (67 / 2) (bytes_in ?i)"
    using gps_frame_sample by simp
  have b1: "\<bar>- (67 / 2) :: real\<bar> \<le> 1000000" and b2: "\<bar>67 / 2 :: real\<bar> \<le> 1000000" by simp_all
  note t = gps_round_trip [OF exact_rounding_model fr b1 b2]
  from exact_rounding_model gps_frame_sample gps_sample_south t show ?thesis by blast
qed

text \<open>
  Claim C5. For every 2-byte sequence \<open>s\<close> with elements in 0..255,
  \<open>byteArrayToInteger (toBigEndian s)\<close> is \<open>s[0] + 256 * s[1]\<close>: reversing the slice and
  reading it big-endian is reading it little-endian. Lemma \<open>vitals_little_endian\<close> above
  applies this to the fields of a Vitals frame.
\<close>

theorem byteArrayToInteger_toBigEndian:
  "length s = 2 \<Longrightarrow> \<forall>b \<in> set s. 0 \<le> b \<and> b \<le> 255 \<Longrightarrow>
   byteArrayToInteger (toBigEndian s) = Inr (s ! 0 + 256 * s ! 1)"
proof -
  assume len: "length s = 2" and rng: "\<forall>b \<in> set s. 0 \<le> b \<and> b \<le> 255"
  from len obtain a b where s: "s = [a, b]"
    by (cases s; cases "tl s") auto
  with rng have "0 \<le> a" "a \<le> 255" "0 \<le> b" "b \<le> 255" by simp_all
  then have "byteArrayToInteger (toBigEndian [a, b]) = Inr (a + 256 * b)"
    by (rule byteArrayToInteger_pair)
  then show ?thesis by (simp add: s)
qed

theorem byteArrayToInteger_toBigEndian_witness:
  "length [1, 2 :: int] = 2 \<and> set [1, 2 :: int] \<subseteq> {0..255} \<and>
   byteArrayToInteger (toBigEndian [1, 2]) = Inr 513"
  using byteArrayToInteger_toBigEndian [of "[1, 2]"] by simp

text \<open>
  Claim C6. For every byte sequence of length 9, 22 or 49 with elements in 0..255,
  \<open>decodeUplink\<close> returns a decoded record, which is not the error record, and raises no
  fault, in every runtime. The widths of the slices are \<open>vitals_integer_slices\<close> and
  \<open>gps_double_slices\<close> above.
\<close>

theorem decodeUplink_no_fault:
  assumes "length (bytes_in input) \<in> {9, 22, 49}"
    and "\<forall>b \<in> set (bytes_in input). 0 \<le> b \<and> b \<le> 255"
  shows "\<exists>d. decodeUplink rt input = Inr d \<and> (\<forall>e. d \<noteq> Invalid e)"
proof -
  consider "length (bytes_in input) = 9" | "length (bytes_in input) = 22"
    | "length (bytes_in input) = 49"
    using assms(1) by auto
  then show ?thesis
  proof cases
    case 1
    then show ?thesis by (simp add: decodeUplink_def)
  next
    case 2
    then obtain d where "decodeGPSData rt (bytes_in input) = Inr d"
      using decodeGPSData_ok by blast
    with 2 show ?thesis by (simp add: decodeUplink_def bindE_def)
  next
    case 3
    then obtain d where "decodeVitalsData rt (bytes_in input) = Inr d"
      using decodeVitalsData_ok by blast
    with 3 show ?thesis by (simp add: decodeUplink_def bindE_def)
  qed
qed

theorem decodeUplink_no_fault_witness:
  "length (bytes_in \<lparr> bytes_in = [95, 1, 3, 4, 5, 6, 7, 8, 9, 10, 11, 12, 13, 14, 15,
       16, 17, 18, 19, 20, 21, 22, 23, 24, 25, 26, 27, 28, 29, 30, 31, 32, 33, 34, 35, 36, 37, 38,
       39, 40, 41, 42, 43, 44, 45, 46, 47, 48, 49], fPort = 1 \<rparr>) = 49 \<and>
   set (bytes_in \<lparr> bytes_in = [95, 1, 3, 4, 5, 6, 7, 8, 9, 10, 11, 12, 13, 14, 15,
       16, 17, 18, 19, 20, 21, 22, 23, 24, 25, 26, 27, 28, 29, 30, 31, 32, 33, 34, 35, 36, 37, 38,
       39, 40, 41, 42, 43, 44, 45, 46, 47, 48, 49], fPort = 1 \<rparr>) \<subseteq> {0..255} \<and>
   (\<exists>d. decodeUplink exact_runtime \<lparr> bytes_in = [95, 1, 3, 4, 5, 6, 7, 8, 9, 10, 11, 12, 13, 14, 15,
       16, 17, 18, 19, 20, 21, 22, 23, 24, 25, 26, 27, 28, 29, 30, 31, 32, 33, 34, 35, 36, 37, 38,
       39, 40, 41, 42, 43, 44, 45, 46, 47, 48, 49], fPort = 1 \<rparr> = Inr d \<and>
        (\<forall>e. d \<noteq> Invalid e))"
  using decodeUplink_no_fault [of "\<lparr> bytes_in = [95, 1, 3, 4, 5, 6, 7, 8, 9, 10, 11, 12, 13, 14, 15,
       16, 17, 18, 19, 20, 21, 22, 23, 24, 25, 26, 27, 28, 29, 30, 31, 32, 33, 34, 35, 36, 37, 38,
       39, 40, 41, 42, 43, 44, 45, 46, 47, 48, 49], fPort = 1 \<rparr>" exact_runtime]
  by simp

text \<open>
  Claim C10. For every 22-byte frame, decoding succeeds; the latitude is negated exactly when
  byte 17 is 0x53 (S) and the longitude exactly when byte 8 is 0x57 (W). A frame whose byte 8
  is neither 0x45 nor 0x57 decodes as the frame with 0x45 (E) there, and a frame whose byte 17
  is neither 0x4e nor 0x53 as the frame with 0x4e (N) there.
\<close>

theorem decodeUplink_gps_hemisphere:
  assumes "length (bytes_in input) = 22"
  shows "(\<exists>lngDM latDM.
            parseGPS rt (slice (bytes_in input) 0 8) = Inr lngDM \<and>
            parseGPS rt (slice (bytes_in input) 9 17) = Inr latDM \<and>
            decodeUplink rt input =
              Inr (GPS \<lparr> gps_data_type = ''GPS'',
                latitude =
                  (if bytes_in input ! 17 = 0x53
                   then f_neg rt (f_add rt (degrees latDM) (f_div rt (minutes latDM) (number rt 60)))
                   else f_add rt (degrees latDM) (f_div rt (minutes latDM) (number rt 60))),
                longitude =
                  (if bytes_in input ! 8 = 0x57
                   then f_neg rt (f_add rt (degrees lngDM) (f_div rt (minutes lngDM) (number rt 60)))
                   else f_add rt (degrees lngDM) (f_div rt (minutes lngDM) (number rt 60))) \<rparr>)) \<and>
         (bytes_in input ! 8 \<notin> {0x45, 0x57} \<longrightarrow>
            decodeUplink rt input
              = decodeUplink rt (input\<lparr> bytes_in := (bytes_in input)[8 := 0x45] \<rparr>)) \<and>
         (bytes_in input ! 17 \<notin> {0x4e, 0x53} \<longrightarrow>
            decodeUplink rt input
              = decodeUplink rt (input\<lparr> bytes_in := (bytes_in input)[17 := 0x4e] \<rparr>))"
proof -
  let ?bytes = "bytes_in input"
  have len: "length ?bytes = 22" by (rule assms)
  obtain lngDM where a: "parseGPS rt (slice ?bytes 0 8) = Inr lngDM"
    using parseGPS_ok [of "slice ?bytes 0 8" rt] gps_double_slices [OF len] by auto
  obtain latDM where b: "parseGPS rt (slice ?bytes 9 17) = Inr latDM"
    using parseGPS_ok [of "slice ?bytes 9 17" rt] gps_double_slices [OF len] by auto
  have gps: "decodeGPSData rt ?bytes =
      Inr \<lparr> gps_data_type = ''GPS'',
            latitude = dmToDecimal rt (degrees latDM) (minutes latDM)
              (if ?bytes ! 17 = 0x4e then ''N'' else if ?bytes ! 17 = 0x53 then ''S'' else ''Unknown''),
            longitude = dmToDecimal rt (degrees lngDM) (minutes lngDM)
              (if ?bytes ! 8 = 0x45 then ''E'' else if ?bytes ! 8 = 0x57 then ''W'' else ''Unknown'') \<rparr>"
    by (simp add: decodeGPSData_eq [OF len] a b bindE_def)
  have first: "decodeUplink rt input =
      Inr (GPS \<lparr> gps_data_type = ''GPS'',
        latitude =
          (if ?bytes ! 17 = 0x53
           then f_neg rt (f_add rt (degrees latDM) (f_div rt (minutes latDM) (number rt 60)))
           else f_add rt (degrees latDM) (f_div rt (minutes latDM) (number rt 60))),
        longitude =
          (if ?bytes ! 8 = 0x57
           then f_neg rt (f_add rt (degrees lngDM) (f_div rt (minutes lngDM) (number rt 60)))
           else f_add rt (degrees lngDM) (f_div rt (minutes lngDM) (number rt 60))) \<rparr>)"
    using len by (simp add: decodeUplink_def gps bindE_def dmToDecimal_def Let_def)
  have lng: "decodeUplink rt input = decodeUplink rt (input\<lparr> bytes_in := ?bytes[8 := 0x45] \<rparr>)"
    if "?bytes ! 8 \<notin> {0x45, 0x57}"
  proof -
    let ?bytes' = "?bytes[8 := 0x45]"
    have len': "length ?bytes' = 22" using len by simp
    have "decodeGPSData rt ?bytes' = decodeGPSData rt ?bytes"
      using that len
      by (simp add: decodeGPSData_eq [OF len'] gps a b bindE_def dmToDecimal_def
          slice_update_after slice_update_before)
    then show ?thesis using len by (simp add: decodeUplink_def)
  qed
  have lat: "decodeUplink rt input = decodeUplink rt (input\<lparr> bytes_in := ?bytes[17 := 0x4e] \<rparr>)"
    if "?bytes ! 17 \<notin> {0x4e, 0x53}"
  proof -
    let ?bytes' = "?bytes[17 := 0x4e]"
    have len': "length ?bytes' = 22" using len by simp
    have "decodeGPSData rt ?bytes' = decodeGPSData rt ?bytes"
      using that len
      by (simp add: decodeGPSData_eq [OF len'] gps a b bindE_def dmToDecimal_def
          slice_update_after slice_update_before)
    then show ?thesis using len by (simp add: decodeUplink_def)
  qed
  from a b first lng lat show ?thesis by blast
qed

theorem decodeUplink_gps_hemisphere_witness:
  "length (bytes_in \<lparr> bytes_in = [0, 0, 0, 0, 0, 4, 170, 64, 0,
        0, 0, 0, 0, 0, 4, 170, 64, 0, 0, 0, 0, 0], fPort = 1 \<rparr>) = 22 \<and>
   bytes_in \<lparr> bytes_in = [0, 0, 0, 0, 0, 4, 170, 64, 0,
        0, 0, 0, 0, 0, 4, 170, 64, 0, 0, 0, 0, 0], fPort = 1 \<rparr> ! 8 \<notin> {0x45, 0x57} \<and>
   bytes_in \<lparr> bytes_in = [0, 0, 0, 0, 0, 4, 170, 64, 0,
        0, 0, 0, 0, 0, 4, 170, 64, 0, 0, 0, 0, 0], fPort = 1 \<rparr> ! 17 \<notin> {0x4e, 0x53} \<and>
   decodeUplink exact_runtime \<lparr> bytes_in = [0, 0, 0, 0, 0, 4, 170, 64, 0x45,
        0, 0, 0, 0, 0, 4, 170, 64, 0, 0, 0, 0, 0], fPort = 1 \<rparr>
     = Inr (GPS \<lparr> gps_data_type = ''GPS'', latitude = Some (67 / 2), longitude = Some (67 / 2) \<rparr>) \<and>
   decodeUplink exact_runtime \<lparr> bytes_in = [0, 0, 0, 0, 0, 4, 170, 64, 0,
        0, 0, 0, 0, 0, 4, 170, 64, 0x4e, 0, 0, 0, 0], fPort = 1 \<rparr>
     = Inr (GPS \<lparr> gps_data_type = ''GPS'', latitude = Some (67 / 2), longitude = Some (67 / 2) \<rparr>)"
proof -
  let ?i = "\<lparr> bytes_in = [0, 0, 0, 0, 0, 4, 170, 64, 0,
        0, 0, 0, 0, 0, 4, 170, 64, 0, 0, 0, 0, 0], fPort = 1 \<rparr>"
  have h: "length (bytes_in ?i) = 22" by simp
  have h8: "bytes_in ?i ! 8 \<notin> {0x45, 0x57}" by simp
  have h17: "bytes_in ?i ! 17 \<notin> {0x4e, 0x53}" by simp
  note t = decodeUplink_gps_hemisphere [OF h, of exact_runtime]
  from t h8 have "decodeUplink exact_runtime ?i
      = decodeUplink exact_runtime (?i\<lparr> bytes_in := (bytes_in ?i)[8 := 0x45] \<rparr>)"
    by blast
  then have 1: "decodeUplink exact_runtime \<lparr> bytes_in = [0, 0, 0, 0, 0, 4, 170, 64, 0x45,
        0, 0, 0, 0, 0, 4, 170, 64, 0, 0, 0, 0, 0], fPort = 1 \<rparr>
     = Inr (GPS \<lparr> gps_data_type = ''GPS'', latitude = Some (67 / 2), longitude = Some (67 / 2) \<rparr>)"
    by (simp add: gps_sample)
  from t h17 have "decodeUplink exact_runtime ?i
      = decodeUplink exact_runtime (?i\<lparr> bytes_in := (bytes_in ?i)[17 := 0x4e] \<rparr>)"
    by blast
  then have 2: "decodeUplink exact_runtime \<lparr> bytes_in = [0, 0, 0, 0, 0, 4, 170, 64, 0,
        0, 0, 0, 0, 0, 4, 170, 64, 0x4e, 0, 0, 0, 0], fPort = 1 \<rparr>
     = Inr (GPS \<lparr> gps_data_type = ''GPS'', latitude = Some (67 / 2), longitude = Some (67 / 2) \<rparr>)"
    by (simp add: gps_sample)
  from h h8 h17 1 2 show ?thesis by blast
qed

subsection \<open>Downlink encoder\<close>

text \<open>
  Claim C3 says that a SCAN command is encoded as "SCAN:" followed by the text "true" or
  "false" and the terminator. The code hands the boolean itself to \<open>stringToBytes\<close>, whose
  loop then never runs: for \<open>scan = true\<close> the output is "SCAN:" and the terminator, without
  the flag.
\<close>

theorem encodeDownlink_scan_flag_dropped:
  "encodeDownlink \<lparr> data = \<lparr> data_type = ''SCAN'', uplink_interval_vitals = 5,
       uplink_interval_gps = 60, time = ''2024-01-01-00-00-00'', scan = True,
       alert_sound = False, alert_type = 0 \<rparr> \<rparr>
     = Inr (Bytes [83, 67, 65, 78, 58, 13, 10]) \<and>
   encodeDownlink \<lparr> data = \<lparr> data_type = ''SCAN'', uplink_interval_vitals = 5,
       uplink_interval_gps = 60, time = ''2024-01-01-00-00-00'', scan = True,
       alert_sound = False, alert_type = 0 \<rparr> \<rparr>
     \<noteq> Inr (Bytes (ascii ''SCAN:'' @ ascii ''true'' @ [13, 10]))"
  by (simp add: encodeDownlink_def stringToBytes_loop_ascii endChar_def ascii_def)

text \<open>
  Claim C7. For every UPLINK command: if both intervals are among 1, 5, 10, 15, 30, 60, 120,
  the output is "UPLINK:", the code of the vitals interval, ",", the code of the GPS interval
  and the terminator, with the codes of the specification's table; otherwise
  \<open>encodeDownlink\<close> raises the fault "Invalid uplink interval." and returns nothing.
\<close>

theorem encodeDownlink_uplink:
  assumes "data_type (data input) = ''UPLINK''"
  shows "if uplink_interval_vitals (data input) \<in> {1, 5, 10, 15, 30, 60, 120} \<and>
            uplink_interval_gps (data input) \<in> {1, 5, 10, 15, 30, 60, 120}
         then \<exists>cv cg.
                spec_interval_code (uplink_interval_vitals (data input)) = Some cv \<and>
                spec_interval_code (uplink_interval_gps (data input)) = Some cg \<and>
                encodeDownlink input
                  = Inr (Bytes (ascii ''UPLINK:'' @ ascii [cv] @ ascii '','' @ ascii [cg] @ [13, 10]))
         else encodeDownlink input = Inl (Error ''Invalid uplink interval.'')"
proof -
  let ?v = "uplink_interval_vitals (data input)"
  let ?g = "uplink_interval_gps (data input)"
  show ?thesis
  proof (cases "?v \<in> {1, 5, 10, 15, 30, 60, 120} \<and> ?g \<in> {1, 5, 10, 15, 30, 60, 120}")
    case True
    then obtain cv cg where c: "spec_interval_code ?v = Some cv" "spec_interval_code ?g = Some cg"
      using spec_interval_code_dom [of ?v] spec_interval_code_dom [of ?g] by auto
    have "encodeDownlink input
            = Inr (Bytes (ascii ''UPLINK:'' @ ascii [cv] @ ascii '','' @ ascii [cg] @ [13, 10]))"
      using assms c
      by (simp add: encodeDownlink_def getUplinkIntervalCode_eq bindE_def stringToBytes_loop_ascii
          endChar_def ascii_def)
    with True c show ?thesis by simp
  next
    case False
    then have "spec_interval_code ?v = None \<or> spec_interval_code ?g = None"
      using spec_interval_code_dom [of ?v] spec_interval_code_dom [of ?g] by auto
    then have "encodeDownlink input = Inl (Error ''Invalid uplink interval.'')"
      using assms
      by (auto simp: encodeDownlink_def getUplinkIntervalCode_eq bindE_def split: option.splits)
    with False show ?thesis by simp
  qed
qed

theorem encodeDownlink_uplink_witness:
  "encodeDownlink \<lparr> data = \<lparr> data_type = ''UPLINK'', uplink_interval_vitals = 5,
       uplink_interval_gps = 60, time = [], scan = False, alert_sound = False, alert_type = 0 \<rparr> \<rparr>
     = Inr (Bytes [85, 80, 76, 73, 78, 75, 58, 49, 44, 53, 13, 10]) \<and>
   encodeDownlink \<lparr> data = \<lparr> data_type = ''UPLINK'', uplink_interval_vitals = 5,
       uplink_interval_gps = 7, time = [], scan = False, alert_sound = False, alert_type = 0 \<rparr> \<rparr>
     = Inl (Error ''Invalid uplink interval.'')"
  using encodeDownlink_uplink [of "\<lparr> data = \<lparr> data_type = ''UPLINK'', uplink_interval_vitals = 5,
       uplink_interval_gps = 60, time = [], scan = False, alert_sound = False, alert_type = 0 \<rparr> \<rparr>"]
    encodeDownlink_uplink [of "\<lparr> data = \<lparr> data_type = ''UPLINK'', uplink_interval_vitals = 5,
       uplink_interval_gps = 7, time = [], scan = False, alert_sound = False, alert_type = 0 \<rparr> \<rparr>"]
  by (simp add: spec_interval_code_def ascii_def)

text \<open>
  Claim C8. For every command whose tag is none of UPLINK, TIME, SCAN, ALERT,
  \<open>encodeDownlink\<close> returns the error list \<open>["Invalid data type"]\<close>, no bytes, and raises
  no fault.
\<close>

theorem encodeDownlink_unknown_type:
  "data_type (data input) \<notin> {''UPLINK'', ''TIME'', ''SCAN'', ''ALERT''} \<Longrightarrow>
   encodeDownlink input = Inr (Errors [''Invalid data type''])"
  by (simp add: encodeDownlink_def)

theorem encodeDownlink_unknown_type_witness:
  "data_type (data \<lparr> data = \<lparr> data_type = ''REBOOT'', uplink_interval_vitals = 5,
       uplink_interval_gps = 60, time = [], scan = False, alert_sound = False, alert_type = 0 \<rparr> \<rparr>)
     \<notin> {''UPLINK'', ''TIME'', ''SCAN'', ''ALERT''} \<and>
   encodeDownlink \<lparr> data = \<lparr> data_type = ''REBOOT'', uplink_interval_vitals = 5,
       uplink_interval_gps = 60, time = [], scan = False, alert_sound = False, alert_type = 0 \<rparr> \<rparr>
     = Inr (Errors [''Invalid data type''])"
  using encodeDownlink_unknown_type [of "\<lparr> data = \<lparr> data_type = ''REBOOT'', uplink_interval_vitals = 5,
       uplink_interval_gps = 60, time = [], scan = False, alert_sound = False, alert_type = 0 \<rparr> \<rparr>"]
  by simp

text \<open>
  Claim C9. For every ALERT command the output is "ALERT:", then "1" if \<open>alert_sound\<close> is
  true and "2" otherwise, then ",", "0" and the terminator; changing \<open>alert_type\<close> does not
  change the output.
\<close>

theorem encodeDownlink_alert:
  "data_type (data input) = ''ALERT'' \<Longrightarrow>
   encodeDownlink input
     = Inr (Bytes (ascii ''ALERT:'' @ ascii (if alert_sound (data input) then ''1'' else ''2'')
                   @ ascii '','' @ ascii ''0'' @ [13, 10])) \<and>
   (\<forall>t. encodeDownlink (input\<lparr> data := (data input)\<lparr> alert_type := t \<rparr> \<rparr>) = encodeDownlink input)"
  by (simp add: encodeDownlink_def stringToBytes_loop_ascii endChar_def)

theorem encodeDownlink_alert_witness:
  "data_type (data \<lparr> data = \<lparr> data_type = ''ALERT'', uplink_interval_vitals = 5,
       uplink_interval_gps = 60, time = [], scan = False, alert_sound = True, alert_type = 3 \<rparr> \<rparr>)
     = ''ALERT'' \<and>
   encodeDownlink \<lparr> data = \<lparr> data_type = ''ALERT'', uplink_interval_vitals = 5,
       uplink_interval_gps = 60, time = [], scan = False, alert_sound = True, alert_type = 3 \<rparr> \<rparr>
     = Inr (Bytes [65, 76, 69, 82, 84, 58, 49, 44, 48, 13, 10]) \<and>
   encodeDownlink \<lparr> data = \<lparr> data_type = ''ALERT'', uplink_interval_vitals = 5,
       uplink_interval_gps = 60, time = [], scan = False, alert_sound = True, alert_type = 6 \<rparr> \<rparr>
     = encodeDownlink \<lparr> data = \<lparr> data_type = ''ALERT'', uplink_interval_vitals = 5,
       uplink_interval_gps = 60, time = [], scan = False, alert_sound = True, alert_type = 3 \<rparr> \<rparr>"
proof -
  let ?i = "\<lparr> data = \<lparr> data_type = ''ALERT'', uplink_interval_vitals = 5,
       uplink_interval_gps = 60, time = [], scan = False, alert_sound = True, alert_type = 3 \<rparr> \<rparr>"
  have h: "data_type (data ?i) = ''ALERT''" by simp
  note a = encodeDownlink_alert [OF h]
  from a have 1: "encodeDownlink ?i = Inr (Bytes [65, 76, 69, 82, 84, 58, 49, 44, 48, 13, 10])"
    by (simp add: ascii_def)
  from a have "encodeDownlink (?i\<lparr> data := (data ?i)\<lparr> alert_type := 6 \<rparr> \<rparr>) = encodeDownlink ?i"
    by blast
  then have 2: "encodeDownlink \<lparr> data = \<lparr> data_type = ''ALERT'', uplink_interval_vitals = 5,
       uplink_interval_gps = 60, time = [], scan = False, alert_sound = True, alert_type = 6 \<rparr> \<rparr>
     = encodeDownlink ?i"
    by simp
  from h 1 2 show ?thesis by blast
qed

end
